theory Spec2Isabelle
  imports Main
begin

section \<open>Ext.data.association.HasOne: the collection-backed single-valued relation\<close>

text \<open>
  The development follows \<^verbatim>\<open>touch/src/data/association/HasOne.js\<close>. That file
  defines two members, \<^verbatim>\<open>applyName\<close> and \<^verbatim>\<open>applyStore\<close>; the second returns the
  function that, called on an owner record, creates the record's store, installs the
  getter and the setter on the record and starts the store's load.

  Owner records and stores are JavaScript objects with identity, so they live in an
  explicit heap: an owner record is an index into a list of owners, a store an index
  into a list of stores. Everything an operation does to the outside (a load request, a
  callback invocation, a save of the owner) is an event appended to a trace.
\<close>

subsection \<open>Values\<close>

datatype jsval =
    Undefined
  | Bool bool
  | Num int
  | Str string
  | Fn nat
  | Obj "(string \<times> jsval) list"
  | ModelClass string
  | Instance string "(string \<times> jsval) list"
  | Built jsval jsval

text \<open>
  \<open>Fn k\<close> is a function value (a callback), known by its tag \<open>k\<close>. \<open>ModelClass n\<close>
  is the model class named \<open>n\<close>, \<open>Instance n d\<close> an instance of it with the field
  values \<open>d\<close>. \<open>Built m v\<close> is the record a store bound to the model \<open>m\<close> constructs
  when it is handed the raw value \<open>v\<close> instead of an instance.
\<close>

datatype error = TypeError

subsection \<open>The relation definition\<close>

text \<open>
  The configuration of one association, as its accessors return it. \<open>name\<close> is the
  configured name before \<^verbatim>\<open>applyName\<close> has seen it (\<open>None\<close> is JavaScript's
  \<^verbatim>\<open>undefined\<close>). \<^verbatim>\<open>storeName\<close>, \<^verbatim>\<open>primaryKey\<close> and \<^verbatim>\<open>foreignKey\<close> are
  configuration entries inherited from the parent class; HasOne.js only ever reads
  the store name.
\<close>

record assoc =
  name :: "string option"
  associatedName :: string
  associatedModel :: string
  storeName :: string
  primaryKey :: string
  foreignKey :: string

text \<open>
  \<^verbatim>\<open>String.prototype.toLowerCase\<close> and \<^verbatim>\<open>Ext.String.capitalize\<close>, on the ASCII
  letters (a HOL character is a byte).
\<close>

definition lower_char :: "char \<Rightarrow> char" where
  "lower_char c =
     (case map_of (zip ''ABCDEFGHIJKLMNOPQRSTUVWXYZ'' ''abcdefghijklmnopqrstuvwxyz'') c of
        Some d \<Rightarrow> d
      | None \<Rightarrow> c)"

definition upper_char :: "char \<Rightarrow> char" where
  "upper_char c =
     (case map_of (zip ''abcdefghijklmnopqrstuvwxyz'' ''ABCDEFGHIJKLMNOPQRSTUVWXYZ'') c of
        Some d \<Rightarrow> d
      | None \<Rightarrow> c)"

definition toLowerCase :: "string \<Rightarrow> string" where
  "toLowerCase s = map lower_char s"

text \<open>
  Modelled from the spec: \<^verbatim>\<open>Ext.String.capitalize\<close> is not part of HasOne.js; the
  spec names the installed functions \<^verbatim>\<open>get<CapitalizedName>\<close> and
  \<^verbatim>\<open>set<CapitalizedName>\<close>, with \<^verbatim>\<open>address\<close> giving \<^verbatim>\<open>getAddress\<close>: the first
  character is upper-cased and the rest kept.
\<close>

fun capitalize :: "string \<Rightarrow> string" where
  "capitalize [] = []"
| "capitalize (c # cs) = upper_char c # cs"

text \<open>
  \<^verbatim>\<open>applyName: function(name) { if (!name) { name = this.getAssociatedName().toLowerCase(); } return name; }\<close>
  A string is falsy exactly when it is empty.
\<close>

definition applyName :: "assoc \<Rightarrow> string option \<Rightarrow> string" where
  "applyName me nm =
     (case nm of
        None \<Rightarrow> toLowerCase (associatedName me)
      | Some n \<Rightarrow> if n = [] then toLowerCase (associatedName me) else n)"

text \<open>The accessors of the association: \<^verbatim>\<open>getName()\<close> returns what the applier produced.\<close>

definition getName :: "assoc \<Rightarrow> string" where
  "getName me = applyName me (name me)"

definition getAssociatedModel :: "assoc \<Rightarrow> jsval" where
  "getAssociatedModel me = ModelClass (associatedModel me)"

definition getStoreName :: "assoc \<Rightarrow> string" where
  "getStoreName me = storeName me"

subsection \<open>Stores, owner records and the world\<close>

text \<open>
  A store holds the configuration it was created from, its elements, whether a load
  has completed, and the arguments of the loads still in flight (oldest first).
\<close>

record store =
  config :: "(string \<times> jsval) list"
  items :: "jsval list"
  loaded :: bool
  pending :: "jsval list list"

text \<open>
  What a property of an owner record can hold: a store, one of the two closures
  \<^verbatim>\<open>applyStore\<close> installs (each closes over the local variable \<^verbatim>\<open>store\<close>), or
  any other value. A property that is absent, or holds \<^verbatim>\<open>undefined\<close>, is \<open>None\<close> in
  the map \<open>props\<close>; \<open>Plain v\<close> is for a value \<open>v\<close> other than \<^verbatim>\<open>undefined\<close>.
  The field values of the record (\<^verbatim>\<open>record.get('address_id')\<close>) are kept apart, in
  \<open>data\<close>.
\<close>

datatype propval = StoreRef nat | GetterFn nat | SetterFn nat | Plain jsval

record owner =
  data :: "string \<rightharpoonup> jsval"
  props :: "string \<rightharpoonup> propval"

text \<open>
  The events of the trace: store \<open>s\<close> was asked to load with the arguments \<open>args\<close>;
  the callback \<open>f\<close> was invoked with the arguments \<open>args\<close>; the owner \<open>r\<close> was
  asked to save itself (\<^verbatim>\<open>Model.save\<close>, which nothing in HasOne.js calls).
\<close>

datatype event =
    LoadRequested nat "jsval list"
  | Invoked nat "jsval list"
  | SaveRequested nat

record world =
  owners :: "owner list"
  stores :: "store list"
  trace :: "event list"

definition getProp :: "nat \<Rightarrow> string \<Rightarrow> world \<Rightarrow> propval option" where
  "getProp r k w = props (owners w ! r) k"

definition setProp :: "nat \<Rightarrow> string \<Rightarrow> propval \<Rightarrow> world \<Rightarrow> world" where
  "setProp r k p w =
     w\<lparr>owners := (owners w)[r := (owners w ! r)\<lparr>props := (props (owners w ! r))(k \<mapsto> p)\<rparr>]\<rparr>"

subsection \<open>The loadable collection\<close>

text \<open>
  Modelled from the spec: \<^verbatim>\<open>Ext.apply\<close> is not part of HasOne.js. The spec has the
  factory merge the collection configuration "with a forced binding to the associated
  entity type": the entries of the last argument win, then those of the configuration,
  then those of the target object. An object is an association list read by \<open>map_of\<close>.
\<close>

definition Ext_apply ::
  "(string \<times> jsval) list \<Rightarrow> (string \<times> jsval) list \<Rightarrow> (string \<times> jsval) list \<Rightarrow> (string \<times> jsval) list"
where
  "Ext_apply object cfg forced = forced @ cfg @ object"

text \<open>
  Modelled from the spec: \<^verbatim>\<open>Ext.create('Ext.data.Store', config)\<close> is not part of
  HasOne.js. A new store is a new object: it takes the next free index of the heap,
  holds no element, and no load of it has completed.
\<close>

definition Ext_create_Store :: "(string \<times> jsval) list \<Rightarrow> world \<Rightarrow> nat \<times> world" where
  "Ext_create_Store cfg w =
     (length (stores w),
      w\<lparr>stores := stores w @ [\<lparr>config = cfg, items = [], loaded = False, pending = []\<rparr>]\<rparr>)"

text \<open>
  Modelled from the spec: the Loadable Collection capability, "\<^verbatim>\<open>load()\<close> ->
  (asynchronous, populates elements), \<^verbatim>\<open>removeAll()\<close>, \<^verbatim>\<open>add(element)\<close>,
  \<^verbatim>\<open>first()\<close> -> element | absent". The store's own code is not part of HasOne.js.
  \<open>add\<close> takes "either a raw primary-key value or an associated-record instance" and
  adds "the one new element (or the record constructed from the key)".
\<close>

definition Store_first :: "store \<Rightarrow> jsval" where
  "Store_first st = (case items st of [] \<Rightarrow> Undefined | x # _ \<Rightarrow> x)"

definition Store_removeAll :: "store \<Rightarrow> store" where
  "Store_removeAll st = st\<lparr>items := []\<rparr>"

definition createModel :: "store \<Rightarrow> jsval \<Rightarrow> jsval" where
  "createModel st v =
     (case v of
        Instance m d \<Rightarrow> Instance m d
      | _ \<Rightarrow> Built (case map_of (config st) ''model'' of None \<Rightarrow> Undefined | Some m \<Rightarrow> m) v)"

definition Store_add :: "jsval \<Rightarrow> store \<Rightarrow> store" where
  "Store_add v st = st\<lparr>items := items st @ [createModel st v]\<rparr>"

text \<open>
  \<open>load\<close> returns at once: it records the request and leaves the elements as they are.
  The data source answers later, see \<open>complete_load\<close>.
\<close>

definition Store_load :: "nat \<Rightarrow> jsval list \<Rightarrow> world \<Rightarrow> error + world" where
  "Store_load s args w =
     (if s < length (stores w)
      then Inr (w\<lparr>stores := (stores w)[s := (stores w ! s)\<lparr>pending := pending (stores w ! s) @ [args]\<rparr>],
                  trace := trace w @ [LoadRequested s args]\<rparr>)
      else Inl TypeError)"

text \<open>
  Modelled from the spec: the data source's "success/failure/always-callback contract
  (three optional callbacks ...)" applies to the callbacks handed to \<open>load\<close>: a function
  argument is the always-callback, an options object may carry \<^verbatim>\<open>callback\<close>,
  \<^verbatim>\<open>success\<close> and \<^verbatim>\<open>failure\<close>. \<open>listeners ok args\<close> lists the tags of the callbacks
  to run when the load ends with success \<open>ok\<close>.
\<close>

definition fn_at :: "(string \<times> jsval) list \<Rightarrow> string \<Rightarrow> nat list" where
  "fn_at opts k = (case map_of opts k of Some (Fn f) \<Rightarrow> [f] | _ \<Rightarrow> [])"

definition listeners :: "bool \<Rightarrow> jsval list \<Rightarrow> nat list" where
  "listeners ok args =
     (case args of
        Fn f # _ \<Rightarrow> [f]
      | Obj opts # _ \<Rightarrow> fn_at opts (if ok then ''success'' else ''failure'') @ fn_at opts ''callback''
      | _ \<Rightarrow> [])"

datatype outcome = Succeeded "jsval list" | Failed

definition operation :: "bool \<Rightarrow> jsval" where
  "operation ok = Obj [(''action'', Str ''read''), (''success'', Bool ok)]"

text \<open>
  Modelled from the spec: the completion of the oldest load in flight of store \<open>s\<close>.
  A success populates the elements and ends the Loading state; a failure "is reported
  to the caller but leaves the state at Loading" and is not thrown. Either way the
  callbacks of that load are invoked with the first record and the load descriptor.
  With no load in flight nothing happens.
\<close>

definition complete_load :: "nat \<Rightarrow> outcome \<Rightarrow> world \<Rightarrow> world" where
  "complete_load s out w =
     (if s < length (stores w) then
        (let st = stores w ! s in
         case pending st of
           [] \<Rightarrow> w
         | args # rest \<Rightarrow>
             (case out of
                Succeeded rs \<Rightarrow>
                  (let st' = st\<lparr>items := rs, loaded := True, pending := rest\<rparr> in
                   w\<lparr>stores := (stores w)[s := st'],
                     trace := trace w @
                       map (\<lambda>f. Invoked f [Store_first st', operation True]) (listeners True args)\<rparr>)
              | Failed \<Rightarrow>
                  (let st' = st\<lparr>pending := rest\<rparr> in
                   w\<lparr>stores := (stores w)[s := st'],
                     trace := trace w @
                       map (\<lambda>f. Invoked f [Store_first st', operation False]) (listeners False args)\<rparr>)))
      else w)"

subsection \<open>applyStore: the factory, the getter and the setter\<close>

text \<open>
  \<^verbatim>\<open>function(){ return store.first(); }\<close>: the function declares no parameter, so
  whatever it is called with is dropped. A closure always holds a store that exists;
  the test on the index only keeps the model total.
\<close>

definition getter :: "nat \<Rightarrow> jsval list \<Rightarrow> world \<Rightarrow> error + (jsval \<times> world)" where
  "getter store args w =
     (if store < length (stores w) then Inr (Store_first (stores w ! store), w) else Inl TypeError)"

text \<open>
  \<^verbatim>\<open>function(record){ store.removeAll(); store.add(record); }\<close>: one parameter, bound
  to the first argument (\<^verbatim>\<open>undefined\<close> when there is none); nothing is returned.
\<close>

definition setter :: "nat \<Rightarrow> jsval list \<Rightarrow> world \<Rightarrow> error + (jsval \<times> world)" where
  "setter store args w =
     (if store < length (stores w) then
        (let record = (case args of [] \<Rightarrow> Undefined | a # _ \<Rightarrow> a);
             w1 = w\<lparr>stores := (stores w)[store := Store_removeAll (stores w ! store)]\<rparr>;
             w2 = w1\<lparr>stores := (stores w1)[store := Store_add record (stores w1 ! store)]\<rparr>
         in Inr (Undefined, w2))
      else Inl TypeError)"

text \<open>
  \<^verbatim>\<open>record[m](args...)\<close>: calling a property of an owner record. Only the two
  installed closures are functions of this model; calling anything else, or a property
  that is not there, is JavaScript's TypeError.
\<close>

definition call_method :: "nat \<Rightarrow> string \<Rightarrow> jsval list \<Rightarrow> world \<Rightarrow> error + (jsval \<times> world)" where
  "call_method r m args w =
     (if r < length (owners w) then
        (case getProp r m w of
           Some (GetterFn s) \<Rightarrow> getter s args w
         | Some (SetterFn s) \<Rightarrow> setter s args w
         | _ \<Rightarrow> Inl TypeError)
      else Inl TypeError)"

text \<open>
  The function \<^verbatim>\<open>applyStore(storeConfig)\<close> returns, called with \<^verbatim>\<open>this\<close> the owner
  \<open>record\<close>. Line by line:
  \<^verbatim>\<open>
  if (record[storeName] === undefined) {
      config = Ext.apply({}, storeConfig, { model : associatedModel, });
      store = record[storeName] = Ext.create('Ext.data.Store', config);
      record["get" + Ext.String.capitalize(me.getName())] = function(){ ... }
      record["set" + Ext.String.capitalize(me.getName())] = function(record){ ... }
      record[storeName].load();
  }
  return record[storeName];
  \<close>
  \<^verbatim>\<open>record[storeName].load()\<close> reads the property again: when it no longer holds the
  store (the store name is also the getter's or the setter's name), the call is a
  TypeError.
\<close>

definition applyStore ::
  "assoc \<Rightarrow> (string \<times> jsval) list \<Rightarrow> nat \<Rightarrow> world \<Rightarrow> error + (propval option \<times> world)"
where
  "applyStore me storeConfig record w =
     (if \<not> record < length (owners w) then Inl TypeError
      else if getProp record (getStoreName me) w = None then
        (let config = Ext_apply [] storeConfig [(''model'', getAssociatedModel me)];
             (store, w1) = Ext_create_Store config w;
             w2 = setProp record (getStoreName me) (StoreRef store) w1;
             w3 = setProp record (''get'' @ capitalize (getName me)) (GetterFn store) w2;
             w4 = setProp record (''set'' @ capitalize (getName me)) (SetterFn store) w3
         in case getProp record (getStoreName me) w4 of
              Some (StoreRef s) \<Rightarrow>
                (case Store_load s [] w4 of
                   Inl e \<Rightarrow> Inl e
                 | Inr w5 \<Rightarrow> Inr (getProp record (getStoreName me) w5, w5))
            | _ \<Rightarrow> Inl TypeError)
      else Inr (getProp record (getStoreName me) w, w))"

subsection \<open>Vocabulary of the properties\<close>

text \<open>The names under which \<open>applyStore\<close> installs the getter and the setter.\<close>

definition getterName :: "assoc \<Rightarrow> string" where
  "getterName me = ''get'' @ capitalize (getName me)"

definition setterName :: "assoc \<Rightarrow> string" where
  "setterName me = ''set'' @ capitalize (getName me)"

text \<open>
  The store name must differ from the names of the two installed functions, or the
  factory's own \<^verbatim>\<open>record[storeName].load()\<close> fails (see \<open>applyStore\<close>).
\<close>

definition names_ok :: "assoc \<Rightarrow> bool" where
  "names_ok me \<longleftrightarrow>
     getStoreName me \<noteq> getterName me \<and>
     getStoreName me \<noteq> setterName me"

text \<open>
  \<open>bound me r s w\<close>: in the world \<open>w\<close> the owner \<open>r\<close> holds the store \<open>s\<close> in its
  store slot, and the getter and the setter installed on \<open>r\<close> close over \<open>s\<close>.
\<close>

definition bound :: "assoc \<Rightarrow> nat \<Rightarrow> nat \<Rightarrow> world \<Rightarrow> bool" where
  "bound me r s w \<longleftrightarrow>
     r < length (owners w) \<and> s < length (stores w) \<and>
     getProp r (getStoreName me) w = Some (StoreRef s) \<and>
     getProp r (getterName me) w = Some (GetterFn s) \<and>
     getProp r (setterName me) w = Some (SetterFn s)"

text \<open>The world a call leaves behind (the world it started in when the call raises).\<close>

definition after_factory :: "assoc \<Rightarrow> (string \<times> jsval) list \<Rightarrow> nat \<Rightarrow> world \<Rightarrow> world" where
  "after_factory me cfg r w = (case applyStore me cfg r w of Inl e \<Rightarrow> w | Inr (p, w') \<Rightarrow> w')"

definition after_call :: "nat \<Rightarrow> string \<Rightarrow> jsval list \<Rightarrow> world \<Rightarrow> world" where
  "after_call r m args w = (case call_method r m args w of Inl e \<Rightarrow> w | Inr (v, w') \<Rightarrow> w')"

text \<open>The same world with the field values of owner \<open>r\<close> replaced by \<open>d\<close>.\<close>

definition with_data :: "nat \<Rightarrow> (string \<rightharpoonup> jsval) \<Rightarrow> world \<Rightarrow> world" where
  "with_data r d w = w\<lparr>owners := (owners w)[r := (owners w ! r)\<lparr>data := d\<rparr>]\<rparr>"

text \<open>
  How a world evolves under one association \<open>me\<close> with store configuration \<open>cfg\<close>:
  by factory calls on any owner, by calls of any property of any owner with any
  arguments, and by the data source completing a load of any store with any outcome.
\<close>

inductive evolves :: "assoc \<Rightarrow> (string \<times> jsval) list \<Rightarrow> world \<Rightarrow> world \<Rightarrow> bool"
  for me :: assoc and cfg :: "(string \<times> jsval) list" and w0 :: world
where
  start: "evolves me cfg w0 w0"
| factory: "evolves me cfg w0 w \<Longrightarrow> applyStore me cfg r w = Inr (p, w') \<Longrightarrow> evolves me cfg w0 w'"
| invoke: "evolves me cfg w0 w \<Longrightarrow> call_method r m args w = Inr (v, w') \<Longrightarrow> evolves me cfg w0 w'"
| completion: "evolves me cfg w0 w \<Longrightarrow> evolves me cfg w0 (complete_load s out w)"

text \<open>A world before any access: no store, no event, no own property on any owner.\<close>

definition fresh_world :: "world \<Rightarrow> bool" where
  "fresh_world w \<longleftrightarrow>
     stores w = [] \<and> trace w = [] \<and> list_all (\<lambda>ow. props ow = Map.empty) (owners w)"

definition is_Invoked :: "event \<Rightarrow> bool" where
  "is_Invoked e = (case e of Invoked f args \<Rightarrow> True | _ \<Rightarrow> False)"

text \<open>
  The invariant of the worlds that evolve from a fresh one: every reference an owner
  holds is to the store bound to that owner; a store is bound to one owner only; every
  store was created from the merged configuration and only argument-less loads are in
  flight; the trace holds argument-less load requests only.
\<close>

definition inv :: "assoc \<Rightarrow> (string \<times> jsval) list \<Rightarrow> world \<Rightarrow> bool" where
  "inv me cfg w \<longleftrightarrow>
     (\<forall>r k s. r < length (owners w) \<longrightarrow>
        (getProp r k w = Some (StoreRef s) \<or> getProp r k w = Some (GetterFn s) \<or>
         getProp r k w = Some (SetterFn s))
        \<longrightarrow> s < length (stores w) \<and> bound me r s w) \<and>
     (\<forall>r1 r2 s. bound me r1 s w \<longrightarrow> bound me r2 s w \<longrightarrow> r1 = r2) \<and>
     (\<forall>s < length (stores w).
        config (stores w ! s) = Ext_apply [] cfg [(''model'', getAssociatedModel me)] \<and>
        set (pending (stores w ! s)) \<subseteq> {[]}) \<and>
     (\<forall>e \<in> set (trace w). \<exists>s. e = LoadRequested s [])"

subsection \<open>The running example of HasOne.js: a Person with one Address\<close>

definition Address_assoc :: assoc where
  "Address_assoc =
     \<lparr>name = None, associatedName = ''Address'', associatedModel = ''Address'',
      storeName = ''addressStore'', primaryKey = ''id'', foreignKey = ''address_id''\<rparr>"

definition person :: owner where
  "person =
     \<lparr>data = [''id'' \<mapsto> Num 100, ''address_id'' \<mapsto> Num 20, ''name'' \<mapsto> Str ''John Smith''],
      props = Map.empty\<rparr>"

definition world0 :: world where
  "world0 = \<lparr>owners = [person], stores = [], trace = []\<rparr>"

definition world1 :: world where
  "world1 = after_factory Address_assoc [] 0 world0"

definition address10 :: jsval where
  "address10 = Instance ''Address'' [(''id'', Num 10), (''city'', Str ''Oruro'')]"

definition address20 :: jsval where
  "address20 = Instance ''Address'' [(''id'', Num 20), (''city'', Str ''La Paz'')]"

text \<open>A second Person, with another foreign key, and the world of both.\<close>

definition person2 :: owner where
  "person2 =
     \<lparr>data = [''id'' \<mapsto> Num 101, ''address_id'' \<mapsto> Num 99, ''name'' \<mapsto> Str ''Jane Roe''],
      props = Map.empty\<rparr>"

definition world2 :: world where
  "world2 = \<lparr>owners = [person, person2], stores = [], trace = []\<rparr>"

definition world2_bound :: world where
  "world2_bound = after_factory Address_assoc [] 1 (after_factory Address_assoc [] 0 world2)"

text \<open>
  The customised association of the header of HasOne.js,
  \<^verbatim>\<open>{ type: 'hasOne', model: 'Address', primaryKey: 'unique_id', foreignKey: 'addr_id' }\<close>,
  an owner whose \<^verbatim>\<open>addr_id\<close> is 20, and two addresses keyed by \<^verbatim>\<open>unique_id\<close>.
\<close>

definition custom_assoc :: assoc where
  "custom_assoc =
     \<lparr>name = None, associatedName = ''Address'', associatedModel = ''Address'',
      storeName = ''addressStore'', primaryKey = ''unique_id'', foreignKey = ''addr_id''\<rparr>"

definition personC :: owner where
  "personC = \<lparr>data = [''id'' \<mapsto> Num 100, ''addr_id'' \<mapsto> Num 20], props = Map.empty\<rparr>"

definition worldC :: world where
  "worldC = \<lparr>owners = [personC], stores = [], trace = []\<rparr>"

definition worldC1 :: world where
  "worldC1 = after_factory custom_assoc [] 0 worldC"

definition unique10 :: jsval where
  "unique10 = Instance ''Address'' [(''unique_id'', Num 10)]"

definition unique20 :: jsval where
  "unique20 = Instance ''Address'' [(''unique_id'', Num 20)]"

subsection \<open>Basic facts\<close>

lemma getterName_neq_setterName [simp]:
  "getterName me \<noteq> setterName me" "setterName me \<noteq> getterName me"
  by (simp_all add: getterName_def setterName_def)

lemma applyStore_new:
  assumes "r < length (owners w)" "getProp r (getStoreName me) w = None" "names_ok me"
  shows "applyStore me cfg r w =
     Inr (Some (StoreRef (length (stores w))),
       \<lparr>owners = (owners w)[r := (owners w ! r)\<lparr>props := (props (owners w ! r))
            (getStoreName me \<mapsto> StoreRef (length (stores w)),
             getterName me \<mapsto> GetterFn (length (stores w)),
             setterName me \<mapsto> SetterFn (length (stores w)))\<rparr>],
        stores = stores w @ [\<lparr>config = Ext_apply [] cfg [(''model'', getAssociatedModel me)],
                              items = [], loaded = False, pending = [[]]\<rparr>],
        trace = trace w @ [LoadRequested (length (stores w)) []]\<rparr>)"
  using assms
  by (simp add: applyStore_def Ext_create_Store_def setProp_def getProp_def
      Store_load_def names_ok_def getterName_def setterName_def nth_append)

lemma applyStore_cached:
  assumes "r < length (owners w)" "getProp r (getStoreName me) w = Some p"
  shows "applyStore me cfg r w = Inr (Some p, w)"
  using assms by (simp add: applyStore_def)

lemma applyStore_ok_names:
  assumes "applyStore me cfg r w = Inr (p, w')" "getProp r (getStoreName me) w = None"
  shows "names_ok me" and "r < length (owners w)"
  using assms
  by (auto simp add: applyStore_def Ext_create_Store_def setProp_def getProp_def
      Store_load_def names_ok_def getterName_def setterName_def nth_append split: if_splits)

lemma applyStore_ok_index:
  assumes "applyStore me cfg r w = Inr (p, w')"
  shows "r < length (owners w)"
  using assms by (simp add: applyStore_def split: if_splits)

lemma applyStore_bound:
  assumes "r < length (owners w)" "getProp r (getStoreName me) w = None" "names_ok me"
    "applyStore me cfg r w = Inr (p, w')"
  shows "bound me r (length (stores w)) w'"
  using assms(4) unfolding applyStore_new [OF assms(1-3)]
  using assms(1-3)
  by (auto simp add: bound_def getProp_def names_ok_def)

lemma inv_fresh: "fresh_world w \<Longrightarrow> inv me cfg w"
  by (auto simp add: fresh_world_def inv_def getProp_def bound_def list_all_length)


lemma listeners_Nil [simp]: "listeners ok [] = []"
  by (simp add: listeners_def)

lemma call_method_frame:
  assumes "call_method r m args w = Inr (v, w')"
  shows "owners w' = owners w" and "length (stores w') = length (stores w)" and "trace w' = trace w"
  using assms
  by (auto simp add: call_method_def getter_def setter_def Let_def
      split: if_splits option.splits propval.splits)

lemma call_method_store:
  assumes "call_method r m args w = Inr (v, w')" "s < length (stores w)"
  shows "config (stores w' ! s) = config (stores w ! s)"
    and "pending (stores w' ! s) = pending (stores w ! s)"
    and "loaded (stores w' ! s) = loaded (stores w ! s)"
  using assms
  by (auto simp add: call_method_def getter_def setter_def Let_def Store_removeAll_def Store_add_def
      nth_list_update split: if_splits option.splits propval.splits)

lemma complete_load_frame:
  shows "owners (complete_load s out w) = owners w"
    and "length (stores (complete_load s out w)) = length (stores w)"
  by (auto simp add: complete_load_def Let_def split: list.splits outcome.splits)

lemma complete_load_config:
  "t < length (stores w) \<Longrightarrow> config (stores (complete_load s out w) ! t) = config (stores w ! t)"
  by (auto simp add: complete_load_def Let_def nth_list_update split: list.splits outcome.splits)

lemma complete_load_pending:
  "t < length (stores w) \<Longrightarrow> set (pending (stores (complete_load s out w) ! t)) \<subseteq> set (pending (stores w ! t))"
  by (auto simp add: complete_load_def Let_def nth_list_update split: list.splits outcome.splits)

lemma complete_load_trace:
  assumes "s < length (stores w) \<Longrightarrow> set (pending (stores w ! s)) \<subseteq> {[]}"
  shows "trace (complete_load s out w) = trace w"
  using assms
  by (auto simp add: complete_load_def Let_def split: list.splits outcome.splits)

lemma bound_frame:
  assumes "owners w' = owners w" "length (stores w') = length (stores w)"
  shows "bound me r s w' = bound me r s w"
  using assms by (simp add: bound_def getProp_def)

lemma getProp_frame:
  assumes "owners w' = owners w"
  shows "getProp r k w' = getProp r k w"
  using assms by (simp add: getProp_def)

lemma inv_method:
  assumes "inv me cfg w" "call_method r m args w = Inr (v, w')"
  shows "inv me cfg w'"
proof -
  note fr = call_method_frame [OF assms(2)]
  note st = call_method_store [OF assms(2)]
  have b: "\<And>r s. bound me r s w' = bound me r s w"
    by (rule bound_frame) (simp_all add: fr)
  have g: "\<And>r k. getProp r k w' = getProp r k w"
    by (rule getProp_frame) (simp add: fr)
  show ?thesis
    using assms(1) unfolding inv_def b g fr by (simp add: st)
qed

lemma inv_complete:
  assumes "inv me cfg w"
  shows "inv me cfg (complete_load s out w)"
proof -
  note fr = complete_load_frame [of s out w]
  have b: "\<And>r t. bound me r t (complete_load s out w) = bound me r t w"
    by (rule bound_frame) (simp_all add: fr)
  have g: "\<And>r k. getProp r k (complete_load s out w) = getProp r k w"
    by (rule getProp_frame) (simp add: fr)
  have p: "s < length (stores w) \<Longrightarrow> set (pending (stores w ! s)) \<subseteq> {[]}"
    using assms by (simp add: inv_def)
  have tr: "trace (complete_load s out w) = trace w"
    by (rule complete_load_trace) (rule p)
  have pe: "\<And>t. t < length (stores w) \<Longrightarrow> set (pending (stores (complete_load s out w) ! t)) \<subseteq> {[]}"
    using assms complete_load_pending [of _ w s out] unfolding inv_def by blast
  show ?thesis
    using assms pe unfolding inv_def b g fr tr by (simp add: complete_load_config)
qed

lemma bound_other:
  assumes "applyStore me cfg r w = Inr (p, w')" "r' \<noteq> r" "r' < length (owners w)"
  shows "getProp r' k w' = getProp r' k w"
  using assms
  by (auto simp add: applyStore_def Ext_create_Store_def setProp_def getProp_def
      Store_load_def nth_append split: if_splits option.splits propval.splits)

lemma applyStore_lengths:
  assumes "applyStore me cfg r w = Inr (p, w')"
  shows "length (owners w') = length (owners w)" and "length (stores w) \<le> length (stores w')"
  using assms
  by (auto simp add: applyStore_def Ext_create_Store_def setProp_def getProp_def
      Store_load_def nth_append split: if_splits option.splits propval.splits)

lemma inv_factory:
  assumes "inv me cfg w" "applyStore me cfg r w = Inr (p, w')"
  shows "inv me cfg w'"
proof (cases "getProp r (getStoreName me) w")
  case (Some q)
  with assms applyStore_ok_index [OF assms(2)] show ?thesis
    by (simp add: applyStore_cached)
next
  case None
  note ok = applyStore_ok_names [OF assms(2) None]
  note new = applyStore_new [OF ok(2) None ok(1), of cfg]
  let ?s = "length (stores w)"
  let ?W = "\<lparr>owners = (owners w)[r := (owners w ! r)\<lparr>props := (props (owners w ! r))
            (getStoreName me \<mapsto> StoreRef ?s,
             getterName me \<mapsto> GetterFn ?s,
             setterName me \<mapsto> SetterFn ?s)\<rparr>],
        stores = stores w @ [\<lparr>config = Ext_apply [] cfg [(''model'', getAssociatedModel me)],
                              items = [], loaded = False, pending = [[]]\<rparr>],
        trace = trace w @ [LoadRequested ?s []]\<rparr>"
  have "Inr (p, w') = (Inr (Some (StoreRef ?s), ?W) :: error + (propval option \<times> world))"
    using assms(2) new by (simp only:)
  then have w': "w' = ?W"
    by (simp only: sum.inject prod.inject)
  have len: "length (owners w') = length (owners w)" "length (stores w') = Suc ?s"
    by (simp_all add: w')
  have bnew: "bound me r ?s w'"
    by (rule applyStore_bound [OF ok(2) None ok(1) assms(2)])
  have norefs: "\<And>k t. getProp r k w \<noteq> Some (StoreRef t) \<and> getProp r k w \<noteq> Some (GetterFn t)
       \<and> getProp r k w \<noteq> Some (SetterFn t)"
    using assms(1) None ok(2) unfolding inv_def bound_def by (metis option.distinct(1))
  have other: "\<And>r' k. r' \<noteq> r \<Longrightarrow> r' < length (owners w) \<Longrightarrow> getProp r' k w' = getProp r' k w"
    by (rule bound_other [OF assms(2)])
  have bother: "\<And>r' t. r' \<noteq> r \<Longrightarrow> bound me r' t w' \<Longrightarrow> bound me r' t w \<and> t < ?s"
  proof -
    fix r' t assume a: "r' \<noteq> r" "bound me r' t w'"
    then have "r' < length (owners w)" and "getProp r' (getStoreName me) w = Some (StoreRef t)"
      using other [of r'] len by (simp_all add: bound_def)
    then show "bound me r' t w \<and> t < ?s"
      using assms(1) unfolding inv_def by blast
  qed
  have bself: "\<And>t. bound me r t w' \<Longrightarrow> t = ?s"
    using bnew by (simp add: bound_def)
  have c1: "\<And>r' k t. r' < length (owners w') \<Longrightarrow>
        (getProp r' k w' = Some (StoreRef t) \<or> getProp r' k w' = Some (GetterFn t) \<or> getProp r' k w' = Some (SetterFn t))
        \<Longrightarrow> t < length (stores w') \<and> bound me r' t w'"
  proof -
    fix r' k t
    assume a: "r' < length (owners w')"
      and b: "getProp r' k w' = Some (StoreRef t) \<or> getProp r' k w' = Some (GetterFn t) \<or> getProp r' k w' = Some (SetterFn t)"
    show "t < length (stores w') \<and> bound me r' t w'"
    proof (cases "r' = r")
      case True
      have "t = ?s"
        using b norefs [of k t] ok(2) unfolding True
        by (auto simp add: w' getProp_def split: if_splits)
      then show ?thesis using bnew True len by simp
    next
      case False
      then have "getProp r' k w' = getProp r' k w" using other a len by simp
      with b a len assms(1) have old: "t < ?s \<and> bound me r' t w"
        unfolding inv_def by metis
      have "bound me r' t w'"
        using old False other [of r'] len by (simp add: bound_def)
      then show ?thesis using old len by simp
    qed
  qed
  have c2: "\<And>r1 r2 t. bound me r1 t w' \<Longrightarrow> bound me r2 t w' \<Longrightarrow> r1 = r2"
  proof -
    fix r1 r2 t assume a: "bound me r1 t w'" "bound me r2 t w'"
    show "r1 = r2"
    proof (cases "r1 = r")
      case True
      then have "t = ?s" using a bself by simp
      then show ?thesis using a(2) bother [of r2 t] True by auto
    next
      case False
      then have o1: "bound me r1 t w \<and> t < ?s" using a bother by simp
      then have "r2 \<noteq> r" using a(2) bself by auto
      then have "bound me r2 t w" using a bother by simp
      then show ?thesis using o1 assms(1) unfolding inv_def by blast
    qed
  qed
  have c3: "\<And>t. t < length (stores w') \<Longrightarrow>
      config (stores w' ! t) = Ext_apply [] cfg [(''model'', getAssociatedModel me)]
         \<and> set (pending (stores w' ! t)) \<subseteq> {[]}"
    using assms(1) unfolding inv_def by (auto simp add: w' nth_append)
  have c4: "\<And>e. e \<in> set (trace w') \<Longrightarrow> \<exists>t. e = LoadRequested t []"
    using assms(1) unfolding inv_def by (auto simp add: w')
  show ?thesis
    unfolding inv_def using c1 c2 c3 c4 by blast
qed

lemma inv_evolves:
  assumes "evolves me cfg w0 w" "inv me cfg w0"
  shows "inv me cfg w"
  using assms
  by (induction rule: evolves.induct) (auto intro: inv_factory inv_method inv_complete)

lemmas ex_defs = Address_assoc_def person_def world0_def world1_def address10_def address20_def
  after_factory_def after_call_def getName_def applyName_def toLowerCase_def lower_char_def upper_char_def
  getStoreName_def names_ok_def getterName_def setterName_def

lemma after_factory_new:
  assumes "r < length (owners w)" "getProp r (getStoreName me) w = None" "names_ok me"
  shows "applyStore me cfg r w = Inr (Some (StoreRef (length (stores w))), after_factory me cfg r w)"
    and "after_factory me cfg r w =
       \<lparr>owners = (owners w)[r := (owners w ! r)\<lparr>props := (props (owners w ! r))
            (getStoreName me \<mapsto> StoreRef (length (stores w)),
             getterName me \<mapsto> GetterFn (length (stores w)),
             setterName me \<mapsto> SetterFn (length (stores w)))\<rparr>],
        stores = stores w @ [\<lparr>config = Ext_apply [] cfg [(''model'', getAssociatedModel me)],
                              items = [], loaded = False, pending = [[]]\<rparr>],
        trace = trace w @ [LoadRequested (length (stores w)) []]\<rparr>"
  by (simp_all add: after_factory_def applyStore_new [OF assms])

lemma getter_bound:
  assumes "bound me r s w"
  shows "call_method r (getterName me) args w = Inr (Store_first (stores w ! s), w)"
  using assms by (simp add: bound_def call_method_def getter_def)

lemma setter_bound:
  assumes "bound me r s w"
  shows "call_method r (setterName me) args w =
     Inr (Undefined, w\<lparr>stores := (stores w)[s :=
        Store_add (case args of [] \<Rightarrow> Undefined | a # _ \<Rightarrow> a) (Store_removeAll (stores w ! s))]\<rparr>)"
  using assms by (simp add: bound_def call_method_def setter_def Let_def)

lemma world1_eq: "applyStore Address_assoc [] 0 world0 = Inr (Some (StoreRef 0), world1)"
  by (simp add: ex_defs applyStore_def Ext_create_Store_def Ext_apply_def setProp_def getProp_def
      Store_load_def getAssociatedModel_def)


lemma complete_load_bound_trace:
  assumes "pending (stores w ! s) = [[]]"
  shows "trace (complete_load s out w) = trace w"
  using assms by (simp add: complete_load_def Let_def split: outcome.splits)

lemma complete_load_same:
  assumes "s < length (stores w)" "pending (stores w ! s) = args # rest"
  shows "stores (complete_load s (Succeeded rs) w) =
           (stores w)[s := (stores w ! s)\<lparr>items := rs, loaded := True, pending := rest\<rparr>]"
    and "stores (complete_load s Failed w) = (stores w)[s := (stores w ! s)\<lparr>pending := rest\<rparr>]"
  using assms by (simp_all add: complete_load_def Let_def)

lemma world1_bound: "bound Address_assoc 0 0 world1"
  using applyStore_bound [of 0 world0 Address_assoc "[]" "Some (StoreRef 0)" world1] world1_eq
  by (simp add: getProp_def ex_defs)

lemma world1_names:
  "getterName Address_assoc = ''getAddress''" "setterName Address_assoc = ''setAddress''"
  "getStoreName Address_assoc = ''addressStore''"
  by (simp_all add: ex_defs)

lemma world1_explicit:
  "world1 =
     \<lparr>owners = [\<lparr>data = data person,
                  props = [''addressStore'' \<mapsto> StoreRef 0, ''getAddress'' \<mapsto> GetterFn 0,
                           ''setAddress'' \<mapsto> SetterFn 0]\<rparr>],
      stores = [\<lparr>config = [(''model'', ModelClass ''Address'')], items = [], loaded = False,
                 pending = [[]]\<rparr>],
      trace = [LoadRequested 0 []]\<rparr>"
proof -
  have h1: "0 < length (owners world0)" by (simp add: world0_def)
  have h2: "getProp 0 (getStoreName Address_assoc) world0 = None"
    by (simp add: getProp_def ex_defs)
  have h3: "names_ok Address_assoc" by (simp add: ex_defs)
  show ?thesis
    unfolding world1_def after_factory_new(2) [OF h1 h2 h3] world1_names
    by (simp add: world0_def person_def Ext_apply_def getAssociatedModel_def Address_assoc_def)
qed

lemma world1_store:
  "stores world1 = [\<lparr>config = [(''model'', ModelClass ''Address'')], items = [], loaded = False, pending = [[]]\<rparr>]"
  "trace world1 = [LoadRequested 0 []]"
  "owners world1 = [\<lparr>data = data person,
                  props = [''addressStore'' \<mapsto> StoreRef 0, ''getAddress'' \<mapsto> GetterFn 0,
                           ''setAddress'' \<mapsto> SetterFn 0]\<rparr>]"
  by (simp_all add: world1_explicit)

lemma createModel_items:
  "createModel (st\<lparr>items := xs\<rparr>) v = createModel st v"
  by (cases v) (simp_all add: createModel_def)

lemma setter_store:
  "Store_add v (Store_removeAll st) = st\<lparr>items := [createModel st v]\<rparr>"
  by (simp add: Store_add_def Store_removeAll_def createModel_items)

lemma setter_items:
  "items (Store_add v (Store_removeAll st)) = [createModel st v]"
  by (simp add: setter_store)

lemma after_call_getter:
  assumes "bound me r s w"
  shows "after_call r (getterName me) args w = w"
  by (simp add: after_call_def getter_bound [OF assms])

lemma after_call_setter:
  assumes "bound me r s w"
  shows "after_call r (setterName me) (v # rest) w =
     w\<lparr>stores := (stores w)[s := (stores w ! s)\<lparr>items := [createModel (stores w ! s) v]\<rparr>]\<rparr>"
  by (simp add: after_call_def setter_bound [OF assms] setter_store)

lemma bound_after_setter:
  assumes "bound me r s w"
  shows "bound me r s (after_call r (setterName me) (v # rest) w)"
  using assms unfolding after_call_setter [OF assms] by (simp add: bound_def getProp_def)

lemma evolves_after_factory:
  assumes "evolves me cfg w0 w"
  shows "evolves me cfg w0 (after_factory me cfg r w)"
proof (cases "applyStore me cfg r w")
  case (Inl e)
  then show ?thesis using assms by (simp add: after_factory_def)
next
  case (Inr pw)
  obtain p w' where pw: "pw = (p, w')" by (cases pw)
  have "after_factory me cfg r w = w'" by (simp add: after_factory_def Inr pw)
  then show ?thesis using evolves.factory [OF assms] Inr pw by simp
qed

lemma evolves_after_call:
  assumes "evolves me cfg w0 w"
  shows "evolves me cfg w0 (after_call r m args w)"
proof (cases "call_method r m args w")
  case (Inl e)
  then show ?thesis using assms by (simp add: after_call_def)
next
  case (Inr vw)
  obtain v w' where vw: "vw = (v, w')" by (cases vw)
  have "after_call r m args w = w'" by (simp add: after_call_def Inr vw)
  then show ?thesis using evolves.invoke [OF assms] Inr vw by simp
qed

lemma evolves_slot:
  assumes "evolves me cfg w w2" and "r < length (owners w)"
    and "getProp r (getStoreName me) w = Some p"
  shows "r < length (owners w2) \<and> getProp r (getStoreName me) w2 = Some p"
  using assms
proof (induction rule: evolves.induct)
  case start
  then show ?case by simp
next
  case (factory w1 r' p' w')
  then have ih: "r < length (owners w1)" "getProp r (getStoreName me) w1 = Some p" by simp_all
  show ?case
  proof (cases "r' = r")
    case True
    then show ?thesis using factory.hyps(2) ih by (simp add: applyStore_cached)
  next
    case False
    then show ?thesis
      using ih bound_other [OF factory.hyps(2), of r] applyStore_lengths(1) [OF factory.hyps(2)]
      by simp
  qed
next
  case (invoke w1 r' m args v w')
  then show ?case
    using call_method_frame(1) [OF invoke.hyps(2)] by (simp add: getProp_def)
next
  case (completion w1 s out)
  then show ?case by (simp add: getProp_def complete_load_frame)
qed

lemma with_data_frame:
  "stores (with_data r d w) = stores w" "trace (with_data r d w) = trace w"
  "length (owners (with_data r d w)) = length (owners w)"
  by (simp_all add: with_data_def)

lemma with_data_getProp:
  "getProp r' k (with_data r d w) = getProp r' k w"
proof (cases "r < length (owners w)")
  case True
  then show ?thesis by (cases "r' = r") (simp_all add: with_data_def getProp_def)
next
  case False
  then show ?thesis by (simp add: with_data_def getProp_def list_update_beyond)
qed

lemma accessors_ignore_keys:
  "getStoreName (me\<lparr>primaryKey := pk, foreignKey := fk\<rparr>) = getStoreName me"
  "getName (me\<lparr>primaryKey := pk, foreignKey := fk\<rparr>) = getName me"
  "getAssociatedModel (me\<lparr>primaryKey := pk, foreignKey := fk\<rparr>) = getAssociatedModel me"
  by (simp_all add: getStoreName_def getName_def applyName_def getAssociatedModel_def
      split: option.splits)

lemma applyStore_ignores_keys:
  "applyStore (me\<lparr>primaryKey := pk, foreignKey := fk\<rparr>) cfg r w = applyStore me cfg r w"
  unfolding applyStore_def accessors_ignore_keys ..

lemma applyStore_collision:
  assumes "r < length (owners w)" and "getProp r (getStoreName me) w = None" and "\<not> names_ok me"
  shows "applyStore me cfg r w = Inl TypeError"
proof (cases "applyStore me cfg r w")
  case (Inl e)
  then show ?thesis by (cases e) simp
next
  case (Inr pw)
  obtain p w' where "pw = (p, w')" by (cases pw)
  then show ?thesis using applyStore_ok_names(1) [OF _ assms(2)] Inr assms(3) by blast
qed

lemma owner_update_swap:
  "ow\<lparr>props := P, data := d\<rparr> = ow\<lparr>data := d, props := P\<rparr>"
  by (cases ow) simp

lemma with_data_props:
  "props (owners (with_data r' d w) ! r) = props (owners w ! r)"
proof (cases "r' < length (owners w)")
  case True
  then show ?thesis by (cases "r = r'") (simp_all add: with_data_def)
next
  case False
  then show ?thesis by (simp add: with_data_def list_update_beyond)
qed

lemma getter_with_data:
  "getter s args (with_data r' d w) = map_sum id (map_prod id (with_data r' d)) (getter s args w)"
  by (simp add: getter_def with_data_frame)

lemma setter_with_data:
  "setter s args (with_data r' d w) = map_sum id (map_prod id (with_data r' d)) (setter s args w)"
  by (simp add: setter_def with_data_def Let_def)

lemma with_data_new:
  assumes "r < length (owners w)"
  shows "with_data r' d
       \<lparr>owners = (owners w)[r := (owners w ! r)\<lparr>props := P\<rparr>], stores = S, trace = T\<rparr> =
     \<lparr>owners = (owners (with_data r' d w))[r := (owners (with_data r' d w) ! r)\<lparr>props := P\<rparr>],
      stores = S, trace = T\<rparr>"
proof (cases "r' = r")
  case True
  then show ?thesis using assms by (simp add: with_data_def owner_update_swap)
next
  case False
  then show ?thesis using assms
    by (cases "r' < length (owners w)")
       (simp_all add: with_data_def list_update_swap [of r' r] list_update_beyond)
qed

lemma applyStore_with_data:
  "applyStore me cfg r (with_data r' d w) =
     map_sum id (map_prod id (with_data r' d)) (applyStore me cfg r w)"
proof (cases "r < length (owners w)")
  case False
  then show ?thesis by (simp add: applyStore_def with_data_frame)
next
  case True
  then have Td: "r < length (owners (with_data r' d w))" by (simp add: with_data_frame)
  show ?thesis
  proof (cases "getProp r (getStoreName me) w")
    case (Some p)
    then show ?thesis
      using True Td by (simp add: applyStore_cached with_data_getProp)
  next
    case None
    then have Nd: "getProp r (getStoreName me) (with_data r' d w) = None"
      by (simp add: with_data_getProp)
    show ?thesis
    proof (cases "names_ok me")
      case False
      then show ?thesis
        by (simp add: applyStore_collision [OF True None] applyStore_collision [OF Td Nd])
    next
      case ok: True
      show ?thesis
        unfolding applyStore_new [OF True None ok] applyStore_new [OF Td Nd ok]
        by (simp add: with_data_new [OF True] with_data_frame with_data_props)
    qed
  qed
qed

lemma call_method_with_data:
  "call_method r m args (with_data r' d w) =
     map_sum id (map_prod id (with_data r' d)) (call_method r m args w)"
proof (cases "r < length (owners w)")
  case False
  then show ?thesis by (simp add: call_method_def with_data_frame)
next
  case True
  then show ?thesis
    unfolding call_method_def with_data_frame with_data_getProp
    by (simp add: getter_with_data setter_with_data split: option.splits propval.splits)
qed

lemma custom_names:
  "getterName custom_assoc = ''getAddress''" "setterName custom_assoc = ''setAddress''"
  "getStoreName custom_assoc = ''addressStore''"
  by (simp_all add: custom_assoc_def getterName_def setterName_def getStoreName_def getName_def
      applyName_def toLowerCase_def lower_char_def upper_char_def)

lemma worldC_fresh:
  "0 < length (owners worldC)" "getProp 0 (getStoreName custom_assoc) worldC = None"
  "names_ok custom_assoc"
  by (simp_all add: worldC_def getProp_def custom_names personC_def names_ok_def)

lemma worldC1_explicit:
  "worldC1 =
     \<lparr>owners = [\<lparr>data = data personC,
                  props = [''addressStore'' \<mapsto> StoreRef 0, ''getAddress'' \<mapsto> GetterFn 0,
                           ''setAddress'' \<mapsto> SetterFn 0]\<rparr>],
      stores = [\<lparr>config = [(''model'', ModelClass ''Address'')], items = [], loaded = False,
                 pending = [[]]\<rparr>],
      trace = [LoadRequested 0 []]\<rparr>"
  unfolding worldC1_def after_factory_new(2) [OF worldC_fresh] custom_names
  by (simp add: worldC_def personC_def Ext_apply_def getAssociatedModel_def custom_assoc_def)

lemma worldC1_eq: "applyStore custom_assoc [] 0 worldC = Inr (Some (StoreRef 0), worldC1)"
  using after_factory_new(1) [OF worldC_fresh, of "[]"] by (simp add: worldC1_def worldC_def)

lemma inv_bound_of_slot:
  assumes "inv me cfg w" and "r < length (owners w)"
    and "getProp r (getStoreName me) w = Some (StoreRef s)"
  shows "bound me r s w"
  using assms unfolding inv_def by blast

lemma inv_bound_unique:
  assumes "inv me cfg w" and "bound me r1 s w" and "bound me r2 s w"
  shows "r1 = r2"
  using assms unfolding inv_def by blast

lemma inv_pending:
  assumes "inv me cfg w" and "s < length (stores w)"
  shows "set (pending (stores w ! s)) \<subseteq> {[]}"
  using assms unfolding inv_def by blast

lemma inv_trace:
  assumes "inv me cfg w"
  shows "filter is_Invoked (trace w) = []"
proof -
  have "\<And>e. e \<in> set (trace w) \<Longrightarrow> \<not> is_Invoked e"
    using assms unfolding inv_def by (auto simp add: is_Invoked_def)
  then show ?thesis by (simp add: filter_empty_conv)
qed

lemma complete_load_failed_store:
  assumes "t < length (stores w)"
  shows "loaded (stores (complete_load s Failed w) ! t) = loaded (stores w ! t)"
    and "items (stores (complete_load s Failed w) ! t) = items (stores w ! t)"
  using assms
  by (auto simp add: complete_load_def Let_def nth_list_update split: list.splits)

lemma load_with_callbacks_reports_failure:
  assumes "s < length (stores w)" and "pending (stores w ! s) = []"
    and "Store_load s [Obj opts] w = Inr w'"
  shows "trace (complete_load s Failed w') =
     trace w @ [LoadRequested s [Obj opts]] @
     map (\<lambda>f. Invoked f [Store_first (stores w ! s), operation False])
       (fn_at opts ''failure'' @ fn_at opts ''callback'')"
  using assms
  by (auto simp add: Store_load_def complete_load_def Let_def listeners_def Store_first_def)

lemma world2_bound_explicit:
  "world2_bound =
     \<lparr>owners =
        [\<lparr>data = data person,
          props = [''addressStore'' \<mapsto> StoreRef 0, ''getAddress'' \<mapsto> GetterFn 0,
                   ''setAddress'' \<mapsto> SetterFn 0]\<rparr>,
         \<lparr>data = data person2,
          props = [''addressStore'' \<mapsto> StoreRef 1, ''getAddress'' \<mapsto> GetterFn 1,
                   ''setAddress'' \<mapsto> SetterFn 1]\<rparr>],
      stores =
        [\<lparr>config = [(''model'', ModelClass ''Address'')], items = [], loaded = False, pending = [[]]\<rparr>,
         \<lparr>config = [(''model'', ModelClass ''Address'')], items = [], loaded = False, pending = [[]]\<rparr>],
      trace = [LoadRequested 0 [], LoadRequested 1 []]\<rparr>"
proof -
  have h1: "0 < length (owners world2)" by (simp add: world2_def)
  have h2: "getProp 0 (getStoreName Address_assoc) world2 = None"
    by (simp add: getProp_def world1_names world2_def person_def)
  have h3: "names_ok Address_assoc" by (simp add: names_ok_def world1_names)
  let ?wa = "after_factory Address_assoc [] 0 world2"
  note a = after_factory_new(2) [OF h1 h2 h3, of "[]", unfolded world1_names]
  have k1: "1 < length (owners ?wa)" unfolding a by (simp add: world2_def)
  have k2: "getProp 1 (getStoreName Address_assoc) ?wa = None"
    unfolding a by (simp add: getProp_def world1_names world2_def person2_def)
  note b = after_factory_new(2) [OF k1 k2 h3, of "[]", unfolded world1_names a]
  show ?thesis
    unfolding world2_bound_def a b
    by (simp add: world2_def person_def person2_def Ext_apply_def getAssociatedModel_def
        Address_assoc_def)
qed

lemma world2_facts:
  "fresh_world world2" "evolves Address_assoc [] world2 world2_bound"
  "evolves Address_assoc [] world0 world1" "fresh_world world0"
proof -
  show "fresh_world world2" by (simp add: fresh_world_def world2_def person_def person2_def)
  show "evolves Address_assoc [] world2 world2_bound"
    unfolding world2_bound_def by (intro evolves_after_factory evolves.start)
  show "evolves Address_assoc [] world0 world1"
    unfolding world1_def by (intro evolves_after_factory evolves.start)
  show "fresh_world world0" by (simp add: fresh_world_def world0_def person_def)
qed

section \<open>The claims\<close>

subsection \<open>C1: the getter called with a callback\<close>

text \<open>
  C1, as amended. For every owner record, whatever its foreign-key field holds, whose
  store slot is still undefined: the factory call, not the getter, creates the store
  and requests exactly one load of it; the request has no argument and the store's
  configuration is the merge of the store configuration with the model binding, so
  nothing is keyed or filtered by the owner's foreign key. The installed getter, called
  with any arguments (a callback among them), requests no load, invokes nothing and
  leaves the world as it is: it returns the absent value before the load has completed
  and the first loaded record after. The completion of the load invokes no callback.
\<close>

theorem C1_getter_ignores_callback:
  assumes "r < length (owners w)" and "getProp r (getStoreName me) w = None" and "names_ok me"
  shows
    "applyStore me cfg r w = Inr (Some (StoreRef (length (stores w))), after_factory me cfg r w) \<and>
     trace (after_factory me cfg r w) = trace w @ [LoadRequested (length (stores w)) []] \<and>
     config (stores (after_factory me cfg r w) ! length (stores w)) =
       Ext_apply [] cfg [(''model'', getAssociatedModel me)] \<and>
     (\<forall>args. call_method r (getterName me) args (after_factory me cfg r w) =
        Inr (Undefined, after_factory me cfg r w)) \<and>
     (\<forall>out. trace (complete_load (length (stores w)) out (after_factory me cfg r w)) =
        trace (after_factory me cfg r w)) \<and>
     (\<forall>rs args.
        call_method r (getterName me) args
          (complete_load (length (stores w)) (Succeeded rs) (after_factory me cfg r w)) =
        Inr (case rs of [] \<Rightarrow> Undefined | x # _ \<Rightarrow> x,
             complete_load (length (stores w)) (Succeeded rs) (after_factory me cfg r w)))"
proof -
  let ?s = "length (stores w)"
  let ?w1 = "after_factory me cfg r w"
  note new = after_factory_new [OF assms, of cfg]
  have b: "bound me r ?s ?w1"
    using applyStore_bound [OF assms new(1)] .
  have st: "stores ?w1 ! ?s = \<lparr>config = Ext_apply [] cfg [(''model'', getAssociatedModel me)],
                              items = [], loaded = False, pending = [[]]\<rparr>"
    by (simp add: new(2))
  have tr: "trace ?w1 = trace w @ [LoadRequested ?s []]"
    by (simp add: new(2))
  have g: "\<And>args. call_method r (getterName me) args ?w1 = Inr (Undefined, ?w1)"
    by (simp add: getter_bound [OF b] st Store_first_def)
  have c: "\<And>out. trace (complete_load ?s out ?w1) = trace ?w1"
    by (rule complete_load_bound_trace) (simp add: st)
  have b2: "\<And>rs. bound me r ?s (complete_load ?s (Succeeded rs) ?w1)"
    using b by (simp add: bound_def getProp_def complete_load_frame)
  have it: "\<And>rs. items (stores (complete_load ?s (Succeeded rs) ?w1) ! ?s) = rs"
    using b by (simp add: complete_load_same [of ?s ?w1 "[]" "[]"] st bound_def)
  have g2: "\<And>rs args. call_method r (getterName me) args
          (complete_load ?s (Succeeded rs) ?w1) =
        Inr (case rs of [] \<Rightarrow> Undefined | x # _ \<Rightarrow> x, complete_load ?s (Succeeded rs) ?w1)"
    by (simp add: getter_bound [OF b2] Store_first_def it)
  show ?thesis
    using new(1) tr st g c g2 by simp
qed


text \<open>The theorem at the Person of the running example, \<^verbatim>\<open>address_id = 20\<close>.\<close>

theorem C1_getter_ignores_callback_witness:
  "0 < length (owners world0) \<and> getProp 0 (getStoreName Address_assoc) world0 = None \<and>
   names_ok Address_assoc \<and>
   applyStore Address_assoc [] 0 world0 = Inr (Some (StoreRef 0), world1) \<and>
   trace world1 = [LoadRequested 0 []] \<and>
   call_method 0 ''getAddress'' [Fn 7] world1 = Inr (Undefined, world1) \<and>
   trace (complete_load 0 (Succeeded [address20]) world1) = trace world1 \<and>
   call_method 0 ''getAddress'' [Fn 7] (complete_load 0 (Succeeded [address20]) world1) =
     Inr (address20, complete_load 0 (Succeeded [address20]) world1)"
proof -
  have h1: "0 < length (owners world0)" by (simp add: world0_def)
  have h2: "getProp 0 (getStoreName Address_assoc) world0 = None"
    by (simp add: getProp_def ex_defs)
  have h3: "names_ok Address_assoc" by (simp add: ex_defs)
  have n: "getterName Address_assoc = ''getAddress''" by (simp add: ex_defs)
  have l: "length (stores world0) = 0" "trace world0 = []" by (simp_all add: world0_def)
  note t = C1_getter_ignores_callback [OF h1 h2 h3, of "[]", unfolded n l(1), folded world1_def]
  show ?thesis
    using h1 h2 h3 t l by (simp add: address20_def)
qed


text \<open>
  C1 as stated fails for the Person with \<^verbatim>\<open>address_id = 20\<close>. After the factory
  call the store has the model binding and nothing else, the one load request carries
  no argument, \<^verbatim>\<open>getAddress(callback)\<close> returns absent and changes nothing, and when
  the load completes with the Address of key 20 the callback has not been invoked.
  Before the factory call the record has no \<^verbatim>\<open>getAddress\<close> at all.
\<close>

theorem C1_counterexample:
  "applyStore Address_assoc [] 0 world0 = Inr (Some (StoreRef 0), world1) \<and>
   data (owners world0 ! 0) ''address_id'' = Some (Num 20) \<and>
   config (stores world1 ! 0) = [(''model'', ModelClass ''Address'')] \<and>
   trace world1 = [LoadRequested 0 []] \<and>
   call_method 0 ''getAddress'' [Fn 7] world1 = Inr (Undefined, world1) \<and>
   trace (complete_load 0 (Succeeded [address20]) world1) = [LoadRequested 0 []] \<and>
   Invoked 7 [address20, operation True] \<notin> set (trace (complete_load 0 (Succeeded [address20]) world1)) \<and>
   call_method 0 ''getAddress'' [Fn 7] world0 = Inl TypeError"
  by (simp add: ex_defs applyStore_def Ext_create_Store_def Ext_apply_def setProp_def getProp_def
      Store_load_def getAssociatedModel_def call_method_def getter_def Store_first_def
      complete_load_def Let_def)

subsection \<open>C2: the setter replaces the content of the store\<close>

text \<open>
  C2. For every owner record bound to its store and every first argument \<open>v\<close> of the
  setter (a raw key or an instance; further arguments are dropped): the setter
  returns normally; the store it leaves is the old one after \<^verbatim>\<open>removeAll()\<close> and then
  \<^verbatim>\<open>add(v)\<close>, so it holds exactly the one element derived from \<open>v\<close> (the instance
  itself, or the record built from the raw key); the getter then returns that element
  and changes nothing; and a second setter call with \<open>v2\<close>, made after that getter
  call, again leaves exactly the one element derived from \<open>v2\<close>. The getter between
  the two setter calls sees one element, never two.
\<close>

theorem C2_setter_replaces:
  assumes "bound me r s w"
  shows
    "call_method r (setterName me) (v # rest) w =
       Inr (Undefined, after_call r (setterName me) (v # rest) w) \<and>
     stores (after_call r (setterName me) (v # rest) w) ! s =
       Store_add v (Store_removeAll (stores w ! s)) \<and>
     items (stores (after_call r (setterName me) (v # rest) w) ! s) = [createModel (stores w ! s) v] \<and>
     length (items (stores (after_call r (setterName me) (v # rest) w) ! s)) = 1 \<and>
     call_method r (getterName me) args (after_call r (setterName me) (v # rest) w) =
       Inr (createModel (stores w ! s) v, after_call r (setterName me) (v # rest) w) \<and>
     items (stores (after_call r (setterName me) (v2 # rest2)
              (after_call r (getterName me) args (after_call r (setterName me) (v # rest) w))) ! s) =
       [createModel (stores w ! s) v2]"
proof -
  let ?w1 = "after_call r (setterName me) (v # rest) w"
  have s: "s < length (stores w)" using assms by (simp add: bound_def)
  have c1: "call_method r (setterName me) (v # rest) w = Inr (Undefined, ?w1)"
    by (simp add: after_call_setter [OF assms] setter_bound [OF assms] setter_store)
  have st1: "stores ?w1 ! s = Store_add v (Store_removeAll (stores w ! s))"
    using s by (simp add: after_call_setter [OF assms] setter_store)
  have it1: "items (stores ?w1 ! s) = [createModel (stores w ! s) v]"
    by (simp add: st1 setter_items)
  have b1: "bound me r s ?w1"
    by (rule bound_after_setter [OF assms])
  have g: "call_method r (getterName me) args ?w1 = Inr (createModel (stores w ! s) v, ?w1)"
    by (simp add: getter_bound [OF b1] Store_first_def it1)
  have w2: "after_call r (getterName me) args ?w1 = ?w1"
    by (rule after_call_getter [OF b1])
  have cm: "createModel (stores ?w1 ! s) v2 = createModel (stores w ! s) v2"
    using s by (simp add: after_call_setter [OF assms] createModel_items)
  have it2: "items (stores (after_call r (setterName me) (v2 # rest2) ?w1) ! s) =
       [createModel (stores w ! s) v2]"
    using s unfolding after_call_setter [OF b1] cm by (simp add: after_call_setter [OF assms])
  show ?thesis
    using c1 st1 it1 g it2 unfolding w2 by simp
qed


text \<open>The theorem at the Person: \<^verbatim>\<open>setAddress(10)\<close>, \<^verbatim>\<open>getAddress()\<close>, then \<^verbatim>\<open>setAddress(address20)\<close>.\<close>

theorem C2_setter_replaces_witness:
  "bound Address_assoc 0 0 world1 \<and>
   call_method 0 ''setAddress'' [Num 10] world1 =
     Inr (Undefined, after_call 0 ''setAddress'' [Num 10] world1) \<and>
   items (stores (after_call 0 ''setAddress'' [Num 10] world1) ! 0) = [Built (ModelClass ''Address'') (Num 10)] \<and>
   call_method 0 ''getAddress'' [] (after_call 0 ''setAddress'' [Num 10] world1) =
     Inr (Built (ModelClass ''Address'') (Num 10), after_call 0 ''setAddress'' [Num 10] world1) \<and>
   items (stores (after_call 0 ''setAddress'' [address20]
            (after_call 0 ''getAddress'' [] (after_call 0 ''setAddress'' [Num 10] world1))) ! 0) =
     [address20]"
proof -
  note t = C2_setter_replaces [OF world1_bound, of "Num 10" "[]" "[]" address20 "[]", unfolded world1_names]
  have c: "createModel (stores world1 ! 0) (Num 10) = Built (ModelClass ''Address'') (Num 10)"
    "createModel (stores world1 ! 0) address20 = address20"
    by (simp_all add: world1_store createModel_def address20_def)
  show ?thesis
    using world1_bound t unfolding c by (simp add: setter_store world1_store createModel_def)
qed

subsection \<open>C3: the factory creates the store once\<close>

text \<open>
  C3. For every owner record whose store slot is undefined: the first factory call
  returns a new store (the heap of stores grows by one), leaves the record bound to it
  (store slot, getter and setter installed) and appends exactly one load request for
  it to the trace. In every world that evolves from there, by whatever factory calls,
  property calls and load completions, a factory call on the same record returns the
  same store and leaves the world as it is: no store is created and no load requested.
\<close>

theorem C3_factory_idempotent:
  assumes "r < length (owners w)" and "getProp r (getStoreName me) w = None" and "names_ok me"
    and "evolves me cfg (after_factory me cfg r w) w2"
  shows
    "applyStore me cfg r w = Inr (Some (StoreRef (length (stores w))), after_factory me cfg r w) \<and>
     length (stores (after_factory me cfg r w)) = Suc (length (stores w)) \<and>
     bound me r (length (stores w)) (after_factory me cfg r w) \<and>
     trace (after_factory me cfg r w) = trace w @ [LoadRequested (length (stores w)) []] \<and>
     applyStore me cfg r w2 = Inr (Some (StoreRef (length (stores w))), w2)"
proof -
  let ?s = "length (stores w)"
  let ?w1 = "after_factory me cfg r w"
  note new = after_factory_new [OF assms(1-3), of cfg]
  have b: "bound me r ?s ?w1"
    using applyStore_bound [OF assms(1-3) new(1)] .
  have len: "length (stores ?w1) = Suc ?s" and tr: "trace ?w1 = trace w @ [LoadRequested ?s []]"
    by (simp_all add: new(2))
  have "r < length (owners w2) \<and> getProp r (getStoreName me) w2 = Some (StoreRef ?s)"
    using evolves_slot [OF assms(4)] b by (simp add: bound_def)
  then have again: "applyStore me cfg r w2 = Inr (Some (StoreRef ?s), w2)"
    by (simp add: applyStore_cached)
  show ?thesis
    using new(1) len b tr again by simp
qed

text \<open>
  The theorem at the Person: the second factory call is made after \<^verbatim>\<open>setAddress(10)\<close> and
  after the load has completed.
\<close>

theorem C3_factory_idempotent_witness:
  "0 < length (owners world0) \<and> getProp 0 (getStoreName Address_assoc) world0 = None \<and>
   names_ok Address_assoc \<and>
   evolves Address_assoc [] world1
     (complete_load 0 (Succeeded [address20]) (after_call 0 ''setAddress'' [Num 10] world1)) \<and>
   applyStore Address_assoc [] 0 world0 = Inr (Some (StoreRef 0), world1) \<and>
   length (stores world1) = 1 \<and>
   trace world1 = [LoadRequested 0 []] \<and>
   applyStore Address_assoc [] 0
     (complete_load 0 (Succeeded [address20]) (after_call 0 ''setAddress'' [Num 10] world1)) =
     Inr (Some (StoreRef 0),
       complete_load 0 (Succeeded [address20]) (after_call 0 ''setAddress'' [Num 10] world1))"
proof -
  let ?w2 = "complete_load 0 (Succeeded [address20]) (after_call 0 ''setAddress'' [Num 10] world1)"
  have h1: "0 < length (owners world0)" by (simp add: world0_def)
  have h2: "getProp 0 (getStoreName Address_assoc) world0 = None"
    by (simp add: getProp_def ex_defs)
  have h3: "names_ok Address_assoc" by (simp add: ex_defs)
  have h4: "evolves Address_assoc [] world1 ?w2"
    by (intro evolves.completion evolves_after_call evolves.start)
  have l: "length (stores world0) = 0" "trace world0 = []" by (simp_all add: world0_def)
  note t = C3_factory_idempotent [OF h1 h2 h3, of "[]" ?w2, folded world1_def, OF h4, unfolded l]
  show ?thesis
    using h1 h2 h3 h4 t by simp
qed

subsection \<open>C4: the initial load is not constrained by the owner's foreign key\<close>

text \<open>
  C4. For every owner record whose store slot is undefined, the store the factory
  creates has as its configuration the store configuration merged with the binding of
  \<^verbatim>\<open>model\<close> to the associated model, and nothing else: read as an object it is the
  store configuration with \<^verbatim>\<open>model\<close> overridden. The load in flight has no argument.
  The stores and the trace the factory leaves are the same whatever field values
  \<open>d\<close> the owner has, so no filter or key comes from the owner's foreign key. When the
  load completes with the records \<open>rs\<close> of the data source, the store holds all of
  them (more than one when the source yields more than one), and the getter returns
  the first of them.
\<close>

theorem C4_load_unconstrained:
  assumes "r < length (owners w)" and "getProp r (getStoreName me) w = None" and "names_ok me"
  shows
    "config (stores (after_factory me cfg r w) ! length (stores w)) =
       Ext_apply [] cfg [(''model'', getAssociatedModel me)] \<and>
     map_of (config (stores (after_factory me cfg r w) ! length (stores w))) =
       (map_of cfg)(''model'' \<mapsto> ModelClass (associatedModel me)) \<and>
     pending (stores (after_factory me cfg r w) ! length (stores w)) = [[]] \<and>
     stores (after_factory me cfg r (with_data r d w)) = stores (after_factory me cfg r w) \<and>
     trace (after_factory me cfg r (with_data r d w)) = trace (after_factory me cfg r w) \<and>
     items (stores (complete_load (length (stores w)) (Succeeded rs) (after_factory me cfg r w)) !
        length (stores w)) = rs \<and>
     call_method r (getterName me) args
        (complete_load (length (stores w)) (Succeeded rs) (after_factory me cfg r w)) =
       Inr (case rs of [] \<Rightarrow> Undefined | x # _ \<Rightarrow> x,
            complete_load (length (stores w)) (Succeeded rs) (after_factory me cfg r w))"
proof -
  let ?s = "length (stores w)"
  let ?w1 = "after_factory me cfg r w"
  note new = after_factory_new [OF assms, of cfg]
  have hd: "r < length (owners (with_data r d w))"
    "getProp r (getStoreName me) (with_data r d w) = None"
    using assms by (simp_all add: with_data_frame with_data_getProp)
  note newd = after_factory_new [OF hd assms(3), of cfg]
  have b: "bound me r ?s ?w1"
    using applyStore_bound [OF assms new(1)] .
  have st: "stores ?w1 ! ?s = \<lparr>config = Ext_apply [] cfg [(''model'', getAssociatedModel me)],
                              items = [], loaded = False, pending = [[]]\<rparr>"
    by (simp add: new(2))
  have m: "map_of (Ext_apply [] cfg [(''model'', getAssociatedModel me)]) =
       (map_of cfg)(''model'' \<mapsto> ModelClass (associatedModel me))"
    by (simp add: Ext_apply_def getAssociatedModel_def)
  have sd: "stores (after_factory me cfg r (with_data r d w)) = stores ?w1"
    and td: "trace (after_factory me cfg r (with_data r d w)) = trace ?w1"
    by (simp_all add: newd(2) new(2) with_data_frame)
  have b2: "bound me r ?s (complete_load ?s (Succeeded rs) ?w1)"
    using b by (simp add: bound_def getProp_def complete_load_frame)
  have it: "items (stores (complete_load ?s (Succeeded rs) ?w1) ! ?s) = rs"
    using b by (simp add: complete_load_same [of ?s ?w1 "[]" "[]"] st bound_def)
  have g: "call_method r (getterName me) args (complete_load ?s (Succeeded rs) ?w1) =
        Inr (case rs of [] \<Rightarrow> Undefined | x # _ \<Rightarrow> x, complete_load ?s (Succeeded rs) ?w1)"
    by (simp add: getter_bound [OF b2] Store_first_def it)
  have c1: "config (stores ?w1 ! ?s) = Ext_apply [] cfg [(''model'', getAssociatedModel me)]"
    and c3: "pending (stores ?w1 ! ?s) = [[]]"
    by (simp_all add: st)
  have c2: "map_of (config (stores ?w1 ! ?s)) = (map_of cfg)(''model'' \<mapsto> ModelClass (associatedModel me))"
    unfolding c1 by (rule m)
  show ?thesis
    by (intro conjI c1 c2 c3 sd td it g)
qed


text \<open>
  The theorem at the Person (\<^verbatim>\<open>address_id = 20\<close>) and a data source that yields the
  addresses 10 and 20: the store holds both and the getter returns address 10; with
  \<^verbatim>\<open>address_id = 10\<close> instead the factory creates the same store.
\<close>

theorem C4_load_unconstrained_witness:
  "0 < length (owners world0) \<and> getProp 0 (getStoreName Address_assoc) world0 = None \<and>
   names_ok Address_assoc \<and>
   config (stores world1 ! 0) = [(''model'', ModelClass ''Address'')] \<and>
   pending (stores world1 ! 0) = [[]] \<and>
   stores (after_factory Address_assoc [] 0 (with_data 0 [''address_id'' \<mapsto> Num 10] world0)) =
     stores world1 \<and>
   length (items (stores (complete_load 0 (Succeeded [address10, address20]) world1) ! 0)) = 2 \<and>
   call_method 0 ''getAddress'' [] (complete_load 0 (Succeeded [address10, address20]) world1) =
     Inr (address10, complete_load 0 (Succeeded [address10, address20]) world1)"
proof -
  have h1: "0 < length (owners world0)" by (simp add: world0_def)
  have h2: "getProp 0 (getStoreName Address_assoc) world0 = None"
    by (simp add: getProp_def ex_defs)
  have h3: "names_ok Address_assoc" by (simp add: ex_defs)
  have l: "length (stores world0) = 0" by (simp add: world0_def)
  note t = C4_load_unconstrained [OF h1 h2 h3, of "[]" "[''address_id'' \<mapsto> Num 10]"
      "[address10, address20]" "[]", unfolded l world1_names, folded world1_def]
  show ?thesis
    using h1 h2 h3 t by (simp add: Ext_apply_def getAssociatedModel_def Address_assoc_def)
qed

subsection \<open>C5: no two owner records share a store\<close>

text \<open>
  C5. In every world that evolves from a fresh one (by factory calls, property calls
  and load completions), two distinct owner records that each hold a store in their
  store slot hold two different stores. A setter call on the first record returns
  normally and leaves the second record's store exactly as it was: the second record
  still holds it, and its getter returns what it returned before.
\<close>

theorem C5_stores_not_shared:
  assumes "fresh_world w0" and "evolves me cfg w0 w" and "r1 \<noteq> r2"
    and "r1 < length (owners w)" and "r2 < length (owners w)"
    and "getProp r1 (getStoreName me) w = Some (StoreRef s1)"
    and "getProp r2 (getStoreName me) w = Some (StoreRef s2)"
  shows
    "s1 \<noteq> s2 \<and>
     call_method r1 (setterName me) (v # rest) w =
       Inr (Undefined, after_call r1 (setterName me) (v # rest) w) \<and>
     stores (after_call r1 (setterName me) (v # rest) w) ! s2 = stores w ! s2 \<and>
     getProp r2 (getStoreName me) (after_call r1 (setterName me) (v # rest) w) =
       Some (StoreRef s2) \<and>
     call_method r2 (getterName me) args (after_call r1 (setterName me) (v # rest) w) =
       Inr (Store_first (stores w ! s2), after_call r1 (setterName me) (v # rest) w)"
proof -
  let ?w' = "after_call r1 (setterName me) (v # rest) w"
  have i: "inv me cfg w"
    by (rule inv_evolves [OF assms(2) inv_fresh [OF assms(1)]])
  have b1: "bound me r1 s1 w" and b2: "bound me r2 s2 w"
    using inv_bound_of_slot [OF i] assms(4-7) by simp_all
  have ne: "s1 \<noteq> s2"
    using inv_bound_unique [OF i b1] b2 assms(3) by blast
  have c: "call_method r1 (setterName me) (v # rest) w = Inr (Undefined, ?w')"
    by (simp add: after_call_setter [OF b1] setter_bound [OF b1] setter_store)
  have st: "stores ?w' ! s2 = stores w ! s2"
    using ne by (simp add: after_call_setter [OF b1])
  have b2': "bound me r2 s2 ?w'"
    using b2 by (simp add: after_call_setter [OF b1] bound_def getProp_def)
  have sl: "getProp r2 (getStoreName me) ?w' = Some (StoreRef s2)"
    using b2' by (simp add: bound_def)
  have g: "call_method r2 (getterName me) args ?w' = Inr (Store_first (stores w ! s2), ?w')"
    by (simp add: getter_bound [OF b2'] st)
  show ?thesis
    by (intro conjI ne c st sl g)
qed


text \<open>
  The theorem at two Persons, after the factory has run on both: \<^verbatim>\<open>setAddress(10)\<close> on
  the first leaves the second's store empty.
\<close>

theorem C5_stores_not_shared_witness:
  "fresh_world world2 \<and> evolves Address_assoc [] world2 world2_bound \<and> (0::nat) \<noteq> 1 \<and>
   0 < length (owners world2_bound) \<and> 1 < length (owners world2_bound) \<and>
   getProp 0 (getStoreName Address_assoc) world2_bound = Some (StoreRef 0) \<and>
   getProp 1 (getStoreName Address_assoc) world2_bound = Some (StoreRef 1) \<and>
   call_method 0 ''setAddress'' [Num 10] world2_bound =
     Inr (Undefined, after_call 0 ''setAddress'' [Num 10] world2_bound) \<and>
   stores (after_call 0 ''setAddress'' [Num 10] world2_bound) ! 1 = stores world2_bound ! 1 \<and>
   call_method 1 ''getAddress'' [] (after_call 0 ''setAddress'' [Num 10] world2_bound) =
     Inr (Undefined, after_call 0 ''setAddress'' [Num 10] world2_bound)"
proof -
  have h3: "(0::nat) \<noteq> 1" by simp
  have h4: "0 < length (owners world2_bound)" and h5: "1 < length (owners world2_bound)"
    by (simp_all add: world2_bound_explicit)
  have h6: "getProp 0 (getStoreName Address_assoc) world2_bound = Some (StoreRef 0)"
    and h7: "getProp 1 (getStoreName Address_assoc) world2_bound = Some (StoreRef 1)"
    by (simp_all add: world2_bound_explicit getProp_def world1_names)
  have f: "Store_first (stores world2_bound ! 1) = Undefined"
    by (simp add: world2_bound_explicit Store_first_def)
  note t = C5_stores_not_shared [OF world2_facts(1,2) h3 h4 h5 h6 h7, of "Num 10" "[]" "[]",
      unfolded world1_names f]
  show ?thesis
    using world2_facts(1,2) h3 h4 h5 h6 h7 t by simp
qed

subsection \<open>C6: a load that fails\<close>

text \<open>
  C6, as amended. In every world that evolves from a fresh one, for every owner record
  bound to its store: the getter, called with any arguments (an options object with
  \<^verbatim>\<open>reload\<close>, \<^verbatim>\<open>failure\<close> or \<^verbatim>\<open>callback\<close> among them), drops them, returns the
  store's first element and changes nothing, so it neither requests a load nor
  registers a callback. When a load of the store fails, nothing is raised and nothing
  is reported: the trace is unchanged and holds no callback invocation; the store's
  elements and its loaded flag are what they were, so a store that was still loading
  stays so; and the record stays bound to the store.
\<close>

theorem C6_failed_load:
  assumes "fresh_world w0" and "evolves me cfg w0 w" and "bound me r s w"
  shows
    "call_method r (getterName me) args w = Inr (Store_first (stores w ! s), w) \<and>
     trace (complete_load s Failed w) = trace w \<and>
     filter is_Invoked (trace (complete_load s Failed w)) = [] \<and>
     loaded (stores (complete_load s Failed w) ! s) = loaded (stores w ! s) \<and>
     items (stores (complete_load s Failed w) ! s) = items (stores w ! s) \<and>
     bound me r s (complete_load s Failed w)"
proof -
  have i: "inv me cfg w"
    by (rule inv_evolves [OF assms(2) inv_fresh [OF assms(1)]])
  have s: "s < length (stores w)" using assms(3) by (simp add: bound_def)
  have g: "call_method r (getterName me) args w = Inr (Store_first (stores w ! s), w)"
    by (rule getter_bound [OF assms(3)])
  have tr: "trace (complete_load s Failed w) = trace w"
    by (rule complete_load_trace) (rule inv_pending [OF i])
  have ni: "filter is_Invoked (trace (complete_load s Failed w)) = []"
    unfolding tr by (rule inv_trace [OF i])
  have b: "bound me r s (complete_load s Failed w)"
    using assms(3) by (simp add: bound_def getProp_def complete_load_frame)
  show ?thesis
    by (intro conjI g tr ni complete_load_failed_store [OF s] b)
qed



text \<open>The theorem at the Person, right after the factory call.\<close>

theorem C6_failed_load_witness:
  "fresh_world world0 \<and> evolves Address_assoc [] world0 world1 \<and> bound Address_assoc 0 0 world1 \<and>
   call_method 0 ''getAddress'' [Obj [(''reload'', Bool True)]] world1 = Inr (Undefined, world1) \<and>
   trace (complete_load 0 Failed world1) = [LoadRequested 0 []] \<and>
   loaded (stores (complete_load 0 Failed world1) ! 0) = False \<and>
   items (stores (complete_load 0 Failed world1) ! 0) = []"
proof -
  have f: "Store_first (stores world1 ! 0) = Undefined"
    by (simp add: world1_store Store_first_def)
  note t = C6_failed_load [OF world2_facts(4,3) world1_bound, of "[Obj [(''reload'', Bool True)]]",
      unfolded world1_names f]
  show ?thesis
    using world2_facts(4,3) world1_bound t by (simp add: world1_store)
qed


text \<open>
  C6 as stated fails for the Person: the \<^verbatim>\<open>failure\<close> and \<^verbatim>\<open>callback\<close> functions
  handed to the getter are not invoked when the load fails, and no load is in flight
  afterwards although \<^verbatim>\<open>reload: true\<close> was asked for. (A load that is itself called
  with such callbacks does report its failure to them, see
  \<open>load_with_callbacks_reports_failure\<close>; HasOne.js calls \<^verbatim>\<open>load()\<close> without any.)
\<close>

theorem C6_counterexample:
  "applyStore Address_assoc [] 0 world0 = Inr (Some (StoreRef 0), world1) \<and>
   call_method 0 ''getAddress''
     [Obj [(''reload'', Bool True), (''failure'', Fn 1), (''callback'', Fn 2)]] world1 =
     Inr (Undefined, world1) \<and>
   trace (complete_load 0 Failed world1) = [LoadRequested 0 []] \<and>
   Invoked 1 [Undefined, operation False] \<notin> set (trace (complete_load 0 Failed world1)) \<and>
   Invoked 2 [Undefined, operation False] \<notin> set (trace (complete_load 0 Failed world1)) \<and>
   pending (stores (complete_load 0 Failed world1) ! 0) = []"
  using world1_eq
  by (simp add: world1_explicit call_method_def getProp_def getter_def Store_first_def
      complete_load_def)

subsection \<open>C7: the getter returns the first element and loads nothing\<close>

text \<open>
  C7. For every owner record bound to its store, the getter, whatever it is called
  with, returns the first element the store holds, or the absent value when the store
  holds none, raises nothing and leaves the world as it is (so it requests no load).
  Called right after the factory has created the store, before the load has completed
  (the store is not yet loaded), it returns the absent value, again without an error.
\<close>

theorem C7_getter_first:
  assumes "bound me r s w"
    and "r0 < length (owners w0)" and "getProp r0 (getStoreName me) w0 = None" and "names_ok me"
  shows
    "call_method r (getterName me) args w =
       Inr (case items (stores w ! s) of [] \<Rightarrow> Undefined | x # _ \<Rightarrow> x, w) \<and>
     call_method r0 (getterName me) args (after_factory me cfg r0 w0) =
       Inr (Undefined, after_factory me cfg r0 w0) \<and>
     loaded (stores (after_factory me cfg r0 w0) ! length (stores w0)) = False"
proof -
  note new = after_factory_new [OF assms(2-4), of cfg]
  have b: "bound me r0 (length (stores w0)) (after_factory me cfg r0 w0)"
    using applyStore_bound [OF assms(2-4) new(1)] .
  have st: "stores (after_factory me cfg r0 w0) ! length (stores w0) =
     \<lparr>config = Ext_apply [] cfg [(''model'', getAssociatedModel me)],
      items = [], loaded = False, pending = [[]]\<rparr>"
    by (simp add: new(2))
  show ?thesis
    by (simp add: getter_bound [OF assms(1)] getter_bound [OF b] Store_first_def st)
qed


text \<open>
  The theorem at the Person: after a load that yielded two addresses the getter returns
  the first; right after the factory call it returns the absent value.
\<close>

theorem C7_getter_first_witness:
  "bound Address_assoc 0 0 (complete_load 0 (Succeeded [address10, address20]) world1) \<and>
   0 < length (owners world0) \<and> getProp 0 (getStoreName Address_assoc) world0 = None \<and>
   names_ok Address_assoc \<and>
   call_method 0 ''getAddress'' [] (complete_load 0 (Succeeded [address10, address20]) world1) =
     Inr (address10, complete_load 0 (Succeeded [address10, address20]) world1) \<and>
   call_method 0 ''getAddress'' [] world1 = Inr (Undefined, world1)"
proof -
  let ?w = "complete_load 0 (Succeeded [address10, address20]) world1"
  have h1: "bound Address_assoc 0 0 ?w"
    using world1_bound by (simp add: bound_def getProp_def complete_load_frame)
  have h2: "0 < length (owners world0)" by (simp add: world0_def)
  have h3: "getProp 0 (getStoreName Address_assoc) world0 = None"
    by (simp add: getProp_def ex_defs)
  have h4: "names_ok Address_assoc" by (simp add: ex_defs)
  have it: "items (stores ?w ! 0) = [address10, address20]"
    by (simp add: complete_load_def world1_store)
  note t = C7_getter_first [OF h1 h2 h3 h4, of "[]" "[]", unfolded world1_names it, folded world1_def]
  show ?thesis
    using h1 h2 h3 h4 t by simp
qed

subsection \<open>C8: explicit primary and foreign keys\<close>

text \<open>
  C8, as amended. The factory does not read the association's \<^verbatim>\<open>primaryKey\<close> and
  \<^verbatim>\<open>foreignKey\<close>: with any explicit keys it is the same function as without them. Nor
  does it, or any function it installs, read the field values of any owner record:
  replacing the field values of an owner before a factory call or a property call
  gives the same result (or the same error) and the same world as replacing them
  after it. So no lookup the relation performs uses the owner's foreign-key field or
  the associated type's primary-key field, whether they are the defaults or overridden.
\<close>

theorem C8_keys_unused:
  "applyStore (me\<lparr>primaryKey := pk, foreignKey := fk\<rparr>) cfg r w = applyStore me cfg r w \<and>
   applyStore me cfg r (with_data r' d w) =
     map_sum id (map_prod id (with_data r' d)) (applyStore me cfg r w) \<and>
   call_method r m args (with_data r' d w) =
     map_sum id (map_prod id (with_data r' d)) (call_method r m args w)"
  by (intro conjI applyStore_ignores_keys applyStore_with_data call_method_with_data)

text \<open>
  C8 as stated fails for the association configured with \<^verbatim>\<open>primaryKey: 'unique_id'\<close>
  and \<^verbatim>\<open>foreignKey: 'addr_id'\<close> and an owner whose \<^verbatim>\<open>addr_id\<close> is 20: the store is
  created from the model binding alone, its load has no argument, and when the data
  source answers that unfiltered load with the addresses of \<^verbatim>\<open>unique_id\<close> 10 and 20 the
  getter returns the one with \<^verbatim>\<open>unique_id\<close> 10. The factory call is the very call made
  with the default keys.
\<close>

theorem C8_counterexample:
  "primaryKey custom_assoc = ''unique_id'' \<and> foreignKey custom_assoc = ''addr_id'' \<and>
   data (owners worldC ! 0) ''addr_id'' = Some (Num 20) \<and>
   applyStore custom_assoc [] 0 worldC = Inr (Some (StoreRef 0), worldC1) \<and>
   config (stores worldC1 ! 0) = [(''model'', ModelClass ''Address'')] \<and>
   pending (stores worldC1 ! 0) = [[]] \<and>
   call_method 0 ''getAddress'' [] (complete_load 0 (Succeeded [unique10, unique20]) worldC1) =
     Inr (Instance ''Address'' [(''unique_id'', Num 10)],
          complete_load 0 (Succeeded [unique10, unique20]) worldC1) \<and>
   applyStore custom_assoc [] 0 worldC = applyStore Address_assoc [] 0 worldC"
proof -
  have a: "custom_assoc = Address_assoc\<lparr>primaryKey := ''unique_id'', foreignKey := ''addr_id''\<rparr>"
    by (simp add: custom_assoc_def Address_assoc_def)
  have e: "applyStore custom_assoc [] 0 worldC = applyStore Address_assoc [] 0 worldC"
    unfolding a by (rule applyStore_ignores_keys)
  have g: "call_method 0 ''getAddress'' [] (complete_load 0 (Succeeded [unique10, unique20]) worldC1) =
     Inr (Instance ''Address'' [(''unique_id'', Num 10)],
          complete_load 0 (Succeeded [unique10, unique20]) worldC1)"
    by (simp add: worldC1_explicit complete_load_def call_method_def getProp_def getter_def
        Store_first_def unique10_def)
  show ?thesis
    using e g worldC1_eq
    by (simp add: worldC1_explicit custom_assoc_def worldC_def personC_def)
qed

subsection \<open>C9: the relation name and the names of the installed functions\<close>

text \<open>
  C9. \<open>applyName\<close> returns the explicit name when it is given and not empty, and the
  lower-cased associated name when it is missing or empty. When the factory returns
  for a record whose store slot was undefined, the record holds the getter under
  \<^verbatim>\<open>get\<close> plus the capitalized relation name and the setter under \<^verbatim>\<open>set\<close> plus the
  capitalized relation name. For the associated name \<^verbatim>\<open>Address\<close> and no explicit name
  the relation name is \<^verbatim>\<open>address\<close> and the functions are \<^verbatim>\<open>getAddress\<close> and
  \<^verbatim>\<open>setAddress\<close>.
\<close>

theorem C9_names:
  assumes "n \<noteq> []"
    and "applyStore me cfg r w = Inr (p, w')" and "getProp r (getStoreName me) w = None"
  shows
    "applyName me (Some n) = n \<and>
     applyName me None = toLowerCase (associatedName me) \<and>
     applyName me (Some []) = toLowerCase (associatedName me) \<and>
     (\<exists>s. p = Some (StoreRef s) \<and>
        getProp r (''get'' @ capitalize (applyName me (name me))) w' = Some (GetterFn s) \<and>
        getProp r (''set'' @ capitalize (applyName me (name me))) w' = Some (SetterFn s)) \<and>
     applyName (me\<lparr>associatedName := ''Address''\<rparr>) None = ''address'' \<and>
     ''get'' @ capitalize ''address'' = ''getAddress'' \<and>
     ''set'' @ capitalize ''address'' = ''setAddress''"
proof -
  note ok = applyStore_ok_names [OF assms(2,3)]
  have b: "bound me r (length (stores w)) w'"
    by (rule applyStore_bound [OF ok(2) assms(3) ok(1) assms(2)])
  have p: "p = Some (StoreRef (length (stores w)))"
    using assms(2) unfolding applyStore_new [OF ok(2) assms(3) ok(1)] by simp
  have inst: "\<exists>s. p = Some (StoreRef s) \<and>
        getProp r (''get'' @ capitalize (applyName me (name me))) w' = Some (GetterFn s) \<and>
        getProp r (''set'' @ capitalize (applyName me (name me))) w' = Some (SetterFn s)"
    using b p unfolding bound_def getterName_def setterName_def getName_def by blast
  have nm: "applyName me (Some n) = n" "applyName me None = toLowerCase (associatedName me)"
    "applyName me (Some []) = toLowerCase (associatedName me)"
    using assms(1) by (simp_all add: applyName_def)
  have ex: "applyName (me\<lparr>associatedName := ''Address''\<rparr>) None = ''address''"
    "''get'' @ capitalize ''address'' = ''getAddress''" "''set'' @ capitalize ''address'' = ''setAddress''"
    by (simp_all add: applyName_def toLowerCase_def lower_char_def upper_char_def)
  show ?thesis
    using nm inst ex by (simp only: simp_thms)
qed


text \<open>The theorem at the Person, and at the explicit name \<^verbatim>\<open>home\<close>.\<close>

theorem C9_names_witness:
  "''home'' \<noteq> [] \<and>
   applyStore Address_assoc [] 0 world0 = Inr (Some (StoreRef 0), world1) \<and>
   getProp 0 (getStoreName Address_assoc) world0 = None \<and>
   applyName Address_assoc (Some ''home'') = ''home'' \<and>
   applyName Address_assoc None = ''address'' \<and>
   getProp 0 ''getAddress'' world1 = Some (GetterFn 0) \<and>
   getProp 0 ''setAddress'' world1 = Some (SetterFn 0)"
proof -
  have h1: "''home'' \<noteq> []" by simp
  have h3: "getProp 0 (getStoreName Address_assoc) world0 = None"
    by (simp add: getProp_def ex_defs)
  have l: "toLowerCase (associatedName Address_assoc) = ''address''"
    "applyName Address_assoc (name Address_assoc) = ''address''"
    by (simp_all add: ex_defs)
  have c: "capitalize ''address'' = ''Address''" by (simp add: upper_char_def)
  note t = C9_names [OF h1 world1_eq h3, unfolded l c]
  show ?thesis
    using h1 h3 world1_eq t by simp
qed

subsection \<open>C10: the setter touches the store's elements only\<close>

text \<open>
  C10. For every owner record bound to its store, a setter call with further
  arguments after the first is the same call as with the first argument alone: same
  result, same world. It returns normally, leaves every owner record as it was (all
  field values, the foreign key among them, and all properties), appends no event to
  the trace (no save of the owner, no callback invocation, no load request), and the
  world it leaves differs from the old one in the elements of the bound store only.
\<close>

theorem C10_setter_frame:
  assumes "bound me r s w"
  shows
    "call_method r (setterName me) (v # extra) w = call_method r (setterName me) [v] w \<and>
     call_method r (setterName me) (v # extra) w =
       Inr (Undefined, after_call r (setterName me) (v # extra) w) \<and>
     owners (after_call r (setterName me) (v # extra) w) = owners w \<and>
     trace (after_call r (setterName me) (v # extra) w) = trace w \<and>
     after_call r (setterName me) (v # extra) w =
       w\<lparr>stores := (stores w)[s := (stores w ! s)\<lparr>items := [createModel (stores w ! s) v]\<rparr>]\<rparr>"
  by (simp add: after_call_setter [OF assms] setter_bound [OF assms] setter_store)


text \<open>The theorem at the Person: \<^verbatim>\<open>setAddress(10, {callback: ..., success: ...})\<close>.\<close>

theorem C10_setter_frame_witness:
  "bound Address_assoc 0 0 world1 \<and>
   call_method 0 ''setAddress'' [Num 10, Obj [(''callback'', Fn 3), (''success'', Fn 4)]] world1 =
     call_method 0 ''setAddress'' [Num 10] world1 \<and>
   owners (after_call 0 ''setAddress'' [Num 10, Obj [(''callback'', Fn 3), (''success'', Fn 4)]] world1) =
     owners world1 \<and>
   trace (after_call 0 ''setAddress'' [Num 10, Obj [(''callback'', Fn 3), (''success'', Fn 4)]] world1) =
     [LoadRequested 0 []]"
  using world1_bound
    C10_setter_frame [OF world1_bound, of "Num 10" "[Obj [(''callback'', Fn 3), (''success'', Fn 4)]]",
      unfolded world1_names]
  by (simp add: world1_store)

end
